theory Spec2Isabelle
  imports Complex_Main "HOL-Library.Sublist" "HOL-Library.List_Lexorder"
begin

section \<open>JavaScript strings\<close>

text \<open>
  A JavaScript string is a sequence of code units. The model is \<open>string\<close>, a list of
  \<open>char\<close>; a \<open>char\<close> stands for the code unit with the same number, so the strings
  covered are those whose code units are below 256 (ASCII and Latin-1).

  \<open>isWhiteSpace\<close> is the class \<^verbatim>\<open>\s\<close> of a regular expression, which is also what
  \<^verbatim>\<open>String.prototype.trim\<close> strips: tab, line feed, vertical tab, form feed, carriage return,
  space and no-break space. \<open>isLineTerminator\<close> is what \<^verbatim>\<open>.\<close> refuses to match without
  the \<^verbatim>\<open>s\<close> flag: line feed and carriage return.
\<close>

definition isWhiteSpace :: "char \<Rightarrow> bool" where
  "isWhiteSpace c = (of_char c \<in> {9, 10, 11, 12, 13, 32, 160 :: nat})"

definition isLineTerminator :: "char \<Rightarrow> bool" where
  "isLineTerminator c = (of_char c \<in> {10, 13 :: nat})"

definition isDigit :: "char \<Rightarrow> bool" where
  "isDigit c = (48 \<le> (of_char c :: nat) \<and> (of_char c :: nat) \<le> 57)"

definition trim :: "string \<Rightarrow> string" where
  "trim s = rev (dropWhile isWhiteSpace (rev (dropWhile isWhiteSpace s)))"

text \<open>
  \<^verbatim>\<open>toLowerCase\<close> on code units below 256: the letters A to Z and the upper-case
  letters of Latin-1 (192 to 222 without the multiplication sign 215) move up by 32.
\<close>

definition lowerChar :: "char \<Rightarrow> char" where
  "lowerChar c =
     (let n = (of_char c :: nat)
      in if (65 \<le> n \<and> n \<le> 90) \<or> (192 \<le> n \<and> n \<le> 214) \<or> (216 \<le> n \<and> n \<le> 222)
         then char_of (n + 32) else c)"

definition toLowerCase :: "string \<Rightarrow> string" where
  "toLowerCase s = map lowerChar s"

fun stripPrefix :: "string \<Rightarrow> string \<Rightarrow> string option" where
  "stripPrefix [] s = Some s"
| "stripPrefix (p # ps) [] = None"
| "stripPrefix (p # ps) (c # cs) = (if p = c then stripPrefix ps cs else None)"

section \<open>The search filter of \<open>TicketsController.index\<close>\<close>

subsection \<open>The pattern\<close>

text \<open>
  \<^verbatim>\<open>const filterRegex = /^(before|after|reporter):(\S+)(.*)$/\<close>
  \<^verbatim>\<open>const match = searchParam.match(filterRegex)\<close>

  The pattern has no flags: it is case-sensitive, \<^verbatim>\<open>^\<close> and \<^verbatim>\<open>$\<close> are the two ends of
  the input, and \<^verbatim>\<open>.\<close> matches no line terminator. No alternative of group 1 is a prefix
  of another, so at most one of them is followed by the colon. Group 2 is greedy and takes
  the longest run of non-whitespace after the colon; it must not be empty. Group 3 then has
  to reach the end of the input. Giving characters back from group 2 cannot help it: they are
  no line terminators, so group 3 would stop at the same place. Hence the match, when there
  is one, has the longest run as group 2 and the rest of the input as group 3, and there is
  none when that rest holds a line terminator.
\<close>

definition matchQualifier :: "string \<Rightarrow> (string \<times> string) option" where
  "matchQualifier s =
     (case stripPrefix ''before:'' s of
        Some r \<Rightarrow> Some (''before'', r)
      | None \<Rightarrow>
         (case stripPrefix ''after:'' s of
            Some r \<Rightarrow> Some (''after'', r)
          | None \<Rightarrow>
             (case stripPrefix ''reporter:'' s of
                Some r \<Rightarrow> Some (''reporter'', r)
              | None \<Rightarrow> None)))"

definition filterRegex :: "string \<Rightarrow> (string \<times> string \<times> string) option" where
  "filterRegex s =
     (case matchQualifier s of
        None \<Rightarrow> None
      | Some (filterType, r) \<Rightarrow>
          (let filterValue = takeWhile (\<lambda>c. \<not> isWhiteSpace c) r;
               remainingSearch = dropWhile (\<lambda>c. \<not> isWhiteSpace c) r
           in if filterValue = [] then None
              else if filter isLineTerminator remainingSearch = [] then
                Some (filterType, filterValue, remainingSearch)
              else None))"

subsection \<open>Dates\<close>

text \<open>
  A JavaScript \<^verbatim>\<open>Date\<close> holds a time value: a number of milliseconds since
  1 January 1970 UTC, or NaN (an invalid date).
\<close>

datatype jsDate = Date int | InvalidDate

fun isValid :: "jsDate \<Rightarrow> bool" where
  "isValid (Date t) = True"
| "isValid InvalidDate = False"

definition msPerDay :: int where
  "msPerDay = 86400000"

text \<open>
  \<^verbatim>\<open>Date.prototype.setUTCHours(hour, min, sec, ms)\<close>: the day of the time value in UTC is
  kept (\<open>Day(t) = floor(t / msPerDay)\<close>), the time within the day is replaced, and a result
  outside the range of time values is an invalid date. An invalid date stays invalid.
\<close>

fun setUTCHours :: "int \<Rightarrow> int \<Rightarrow> int \<Rightarrow> int \<Rightarrow> jsDate \<Rightarrow> jsDate" where
  "setUTCHours h m s ms InvalidDate = InvalidDate"
| "setUTCHours h m s ms (Date t) =
     (let v = (t div msPerDay) * msPerDay + (h * 3600000 + m * 60000 + s * 1000 + ms)
      in if \<bar>v\<bar> \<le> 8640000000000000 then Date v else InvalidDate)"

subsection \<open>The filters\<close>

record filters =
  beforeDate :: "jsDate option"
  afterDate :: "jsDate option"
  reporterEmail :: "string option"
  searchValue :: "string option"

text \<open>
  Lines 11 to 37 of \<open>index\<close>, from the trimmed request parameter \<open>searchParam\<close> to the
  \<open>filters\<close> object. \<open>None\<close> is \<^verbatim>\<open>undefined\<close>. The first argument is the call
  \<^verbatim>\<open>parse(filterValue, 'dd/MM/yyyy', new Date())\<close> of the date-fns library, which the
  repository imports and does not define.
\<close>

definition index_filters :: "(string \<Rightarrow> jsDate) \<Rightarrow> string \<Rightarrow> filters" where
  "index_filters dateParse searchParam =
     (let filters = \<lparr>beforeDate = None, afterDate = None, reporterEmail = None,
                     searchValue = None\<rparr>
      in case filterRegex searchParam of
           Some (filterType, filterValue, remainingSearch) \<Rightarrow>
             (let filters = filters\<lparr>searchValue := Some (toLowerCase (trim remainingSearch))\<rparr>
              in if filterType = ''before'' then
                   (let beforeDate = dateParse filterValue
                    in filters\<lparr>beforeDate := (if isValid beforeDate then Some beforeDate else None)\<rparr>)
                 else if filterType = ''after'' then
                   (let afterDate = setUTCHours 23 59 59 999 (dateParse filterValue)
                    in filters\<lparr>afterDate := (if isValid afterDate then Some afterDate else None)\<rparr>)
                 else if filterType = ''reporter'' then
                   filters\<lparr>reporterEmail := Some (toLowerCase (trim filterValue))\<rparr>
                 else filters)
         | None \<Rightarrow> filters\<lparr>searchValue := Some (toLowerCase (trim searchParam))\<rparr>)"

text \<open>Line 9: the request parameter is trimmed before it is matched.\<close>

definition searchParam :: "string \<Rightarrow> string" where
  "searchParam input = trim input"

subsection \<open>The date parser of date-fns\<close>

text \<open>
  Modelled from the documented behaviour of date-fns (a dependency, not code of this
  repository): \<^verbatim>\<open>parse(s, 'dd/MM/yyyy', new Date())\<close> reads one or two digits, a slash,
  one or two digits, a slash and one to four digits; nothing but whitespace may follow.
  The year must be positive, the month between 1 and 12, the day between 1 and the length
  of that month in that year. The result is midnight of that day in the local time of the
  host; anything else is an invalid date. The host's time zone is a fixed offset here,
  given the way \<^verbatim>\<open>Date.prototype.getTimezoneOffset\<close> gives it: UTC minus local time in
  minutes, so \<open>-60\<close> for UTC+01:00.
\<close>

definition digitsValue :: "string \<Rightarrow> int" where
  "digitsValue s = foldl (\<lambda>n c. 10 * n + (of_char c - 48)) 0 s"

definition parseNDigits :: "nat \<Rightarrow> string \<Rightarrow> (nat \<times> string) option" where
  "parseNDigits n s =
     (let ds = takeWhile isDigit (take n s)
      in if ds = [] then None else Some (nat (digitsValue ds), drop (length ds) s))"

definition isLeapYearIndex :: "int \<Rightarrow> bool" where
  "isLeapYearIndex year = (year mod 400 = 0 \<or> (year mod 4 = 0 \<and> year mod 100 \<noteq> 0))"

definition daysInMonths :: "int \<Rightarrow> nat list" where
  "daysInMonths year =
     (if isLeapYearIndex year then [31, 29, 31, 30, 31, 30, 31, 31, 30, 31, 30, 31]
      else [31, 28, 31, 30, 31, 30, 31, 31, 30, 31, 30, 31])"

text \<open>The day number of 1 January of a year, as ECMAScript's \<open>DayFromYear\<close>.\<close>

definition dayFromYear :: "int \<Rightarrow> int" where
  "dayFromYear y =
     365 * (y - 1970) + (y - 1969) div 4 - (y - 1901) div 100 + (y - 1601) div 400"

definition makeDay :: "int \<Rightarrow> nat \<Rightarrow> nat \<Rightarrow> int" where
  "makeDay year month day =
     dayFromYear year + int (sum_list (take (month - 1) (daysInMonths year))) + int day - 1"

definition dateFnsParse :: "int \<Rightarrow> string \<Rightarrow> jsDate" where
  "dateFnsParse timezoneOffset dateString =
     (case parseNDigits 2 dateString of
        None \<Rightarrow> InvalidDate
      | Some (day, r1) \<Rightarrow>
     (case stripPrefix ''/'' r1 of
        None \<Rightarrow> InvalidDate
      | Some r2 \<Rightarrow>
     (case parseNDigits 2 r2 of
        None \<Rightarrow> InvalidDate
      | Some (month, r3) \<Rightarrow>
     (case stripPrefix ''/'' r3 of
        None \<Rightarrow> InvalidDate
      | Some r4 \<Rightarrow>
     (case parseNDigits 4 r4 of
        None \<Rightarrow> InvalidDate
      | Some (year, r5) \<Rightarrow>
          if filter (\<lambda>c. \<not> isWhiteSpace c) r5 = [] \<and> 0 < year \<and> 1 \<le> month \<and> month \<le> 12
             \<and> 1 \<le> day \<and> day \<le> daysInMonths (int year) ! (month - 1)
          then Date (makeDay (int year) month day * msPerDay + timezoneOffset * 60000)
          else InvalidDate)))))"

section \<open>The analytics of \<open>SecurityDashboard\<close>\<close>

subsection \<open>Tickets\<close>

text \<open>
  \<^verbatim>\<open>export type Ticket = { id, title, content, creationTime, userEmail, labels? }\<close>. The time
  of creation is a number of milliseconds, an integer here; absent labels are \<open>None\<close>.
\<close>

record Ticket =
  ticket_id :: string
  title :: string
  content :: string
  creationTime :: int
  userEmail :: string
  labels :: "string list option"

subsection \<open>An object used as a table of counters\<close>

text \<open>
  \<^verbatim>\<open>const labelCounts: Record<string, number> = {}\<close> is an ordinary object. Its own
  properties are kept here in the order of their creation. \<^verbatim>\<open>obj[key] = (obj[key] || 0) + 1\<close>
  reads the property (\<^verbatim>\<open>undefined\<close>, hence 0, when there is none), and writes it: over the
  old value, in place, when the property exists, as a new last property otherwise.

  A key that names a member of \<^verbatim>\<open>Object.prototype\<close> is read through the prototype chain:
  the value read is then a function or an object, and what is stored, if anything, is not
  a number. The model covers the other keys, the \<open>ordinaryKey\<close>s.
\<close>

type_synonym counters = "(string \<times> nat) list"

definition getOrZero :: "counters \<Rightarrow> string \<Rightarrow> nat" where
  "getOrZero obj key = (case map_of obj key of None \<Rightarrow> 0 | Some n \<Rightarrow> n)"

definition setProperty :: "counters \<Rightarrow> string \<Rightarrow> nat \<Rightarrow> counters" where
  "setProperty obj key v =
     (if key \<in> fst ` set obj
      then map (\<lambda>(k, n). if k = key then (k, v) else (k, n)) obj
      else obj @ [(key, v)])"

definition increment :: "counters \<Rightarrow> string \<Rightarrow> counters" where
  "increment obj key = setProperty obj key (getOrZero obj key + 1)"

definition objectPrototypeKeys :: "string list" where
  "objectPrototypeKeys =
     [''constructor'', ''hasOwnProperty'', ''isPrototypeOf'', ''propertyIsEnumerable'',
      ''toLocaleString'', ''toString'', ''valueOf'', ''__proto__'', ''__defineGetter__'',
      ''__defineSetter__'', ''__lookupGetter__'', ''__lookupSetter__'']"

definition ordinaryKey :: "string \<Rightarrow> bool" where
  "ordinaryKey key = (key \<notin> set objectPrototypeKeys)"

text \<open>
  \<^verbatim>\<open>Object.entries\<close> and \<^verbatim>\<open>Object.keys\<close> list the own properties in the order of
  \<open>OrdinaryOwnPropertyKeys\<close>: first the keys that are array indices (the decimal numerals
  of the integers from 0 to 4294967294, without leading zeros) in ascending numeric order,
  then the other keys in the order of their creation.
\<close>

definition isArrayIndex :: "string \<Rightarrow> bool" where
  "isArrayIndex key =
     (key \<noteq> [] \<and> filter (\<lambda>c. \<not> isDigit c) key = []
      \<and> (key = ''0'' \<or> take 1 key \<noteq> ''0'') \<and> digitsValue key \<le> 4294967294)"

definition propertyOrder :: "string list \<Rightarrow> string list" where
  "propertyOrder keys =
     sort_key digitsValue (filter isArrayIndex keys) @ filter (\<lambda>k. \<not> isArrayIndex k) keys"

definition Object_entries :: "counters \<Rightarrow> (string \<times> nat) list" where
  "Object_entries obj =
     sort_key (\<lambda>(k, v). digitsValue k) (filter (\<lambda>(k, v). isArrayIndex k) obj)
       @ filter (\<lambda>(k, v). \<not> isArrayIndex k) obj"

definition Object_keys :: "counters \<Rightarrow> string list" where
  "Object_keys obj = map fst (Object_entries obj)"

subsection \<open>Numbers and their text\<close>

fun natToString :: "nat \<Rightarrow> string" where
  "natToString n =
     (if n < 10 then [char_of (48 + n)]
      else natToString (n div 10) @ [char_of (48 + n mod 10)])"

declare natToString.simps [simp del]

definition intToString :: "int \<Rightarrow> string" where
  "intToString i = (if i < 0 then CHR ''-'' # natToString (nat (- i)) else natToString (nat i))"

definition padStart :: "nat \<Rightarrow> char \<Rightarrow> string \<Rightarrow> string" where
  "padStart n c s = replicate (n - length s) c @ s"

text \<open>
  \<^verbatim>\<open>Math.min(...xs)\<close> of no arguments is \<open>+\<infinity>\<close>, here \<open>None\<close>. Then
  \<^verbatim>\<open>(Date.now() - Math.min(...)) / (1000 * 60 * 60 * 24)\<close> is \<open>-\<infinity>\<close>, again \<open>None\<close>, and
  \<^verbatim>\<open>Math.max(1, -Infinity)\<close> is 1. The finite numbers are exact rationals here, where
  JavaScript has IEEE doubles: a quotient that is no double can round to another tenth
  in the code than here.
\<close>

definition Math_min :: "int list \<Rightarrow> int option" where
  "Math_min xs = (case xs of [] \<Rightarrow> None | x # ys \<Rightarrow> Some (fold min ys x))"

definition daysSince :: "int \<Rightarrow> int option \<Rightarrow> rat option" where
  "daysSince now earliest =
     (case earliest of None \<Rightarrow> None
      | Some t \<Rightarrow> Some (of_int (now - t) / of_int (1000 * 60 * 60 * 24)))"

definition Math_max_1 :: "rat option \<Rightarrow> rat" where
  "Math_max_1 x = (case x of None \<Rightarrow> 1 | Some d \<Rightarrow> max 1 d)"

text \<open>\<^verbatim>\<open>Math.round\<close> rounds to the nearest integer, a half upwards.\<close>

definition Math_round :: "rat \<Rightarrow> int" where
  "Math_round x = \<lfloor>x + 1 / 2\<rfloor>"

text \<open>
  The result of a division is a number that may not be finite: a count divided by zero is
  \<^verbatim>\<open>NaN\<close> when the count is 0 and \<^verbatim>\<open>Infinity\<close> otherwise. (The dividend here is a
  count, never negative.) \<^verbatim>\<open>Math.round(x * 10) / 10\<close> keeps \<^verbatim>\<open>NaN\<close> and
  \<^verbatim>\<open>Infinity\<close> as they are.
\<close>

datatype jsNumber = Num rat | NaN | Infinity

definition jsDivide :: "rat \<Rightarrow> rat \<Rightarrow> jsNumber" where
  "jsDivide x y = (if y = 0 then (if x = 0 then NaN else Infinity) else Num (x / y))"

fun roundToTenth :: "jsNumber \<Rightarrow> jsNumber" where
  "roundToTenth (Num x) = Num (of_int (Math_round (x * 10)) / 10)"
| "roundToTenth NaN = NaN"
| "roundToTenth Infinity = Infinity"

subsection \<open>The four passes\<close>

record Stats =
  totalTickets :: nat
  uniqueReporters :: nat
  mostCommonLabel :: string
  avgTicketsPerDay :: jsNumber

record Analytics =
  labelData :: "(string \<times> nat) list"
  timeline :: "(string \<times> nat) list"
  topReporters :: "(string \<times> nat) list"
  stats :: Stats

definition labelCounts :: "Ticket list \<Rightarrow> counters" where
  "labelCounts tickets =
     foldl (\<lambda>obj ticket. case labels ticket of None \<Rightarrow> obj
                          | Some ls \<Rightarrow> foldl increment obj ls) [] tickets"

text \<open>\<^verbatim>\<open>.sort((a, b) => b.value - a.value)\<close>: descending by count, and stable.\<close>

definition sortDescending :: "(string \<times> nat) list \<Rightarrow> (string \<times> nat) list" where
  "sortDescending entries = sort_key (\<lambda>(k, v). - int v) entries"

text \<open>
  The month key of a ticket is made from \<^verbatim>\<open>getFullYear()\<close> and \<^verbatim>\<open>getMonth()\<close> of its
  date, which are in the local time of the host; the two functions are parameters.
  \<^verbatim>\<open>localeCompare\<close> on month keys, which are made of digits and hyphens, is taken as the
  lexicographic order of their code units.
\<close>

definition monthKey :: "(int \<Rightarrow> int) \<Rightarrow> (int \<Rightarrow> nat) \<Rightarrow> int \<Rightarrow> string" where
  "monthKey getFullYear getMonth t =
     intToString (getFullYear t) @ ''-'' @ padStart 2 (CHR ''0'') (natToString (getMonth t + 1))"

definition timelineData :: "(int \<Rightarrow> int) \<Rightarrow> (int \<Rightarrow> nat) \<Rightarrow> Ticket list \<Rightarrow> counters" where
  "timelineData getFullYear getMonth tickets =
     foldl (\<lambda>obj ticket. increment obj (monthKey getFullYear getMonth (creationTime ticket)))
       [] tickets"

definition sortByMonth :: "(string \<times> nat) list \<Rightarrow> (string \<times> nat) list" where
  "sortByMonth entries = sort_key (\<lambda>(month, count). map (of_char :: char \<Rightarrow> nat) month) entries"

definition reporterCounts :: "Ticket list \<Rightarrow> counters" where
  "reporterCounts tickets = foldl (\<lambda>obj ticket. increment obj (userEmail ticket)) [] tickets"

text \<open>
  The body of the \<^verbatim>\<open>useMemo\<close> callback of \<open>SecurityDashboard\<close>, lines 61 to 111. Besides
  the tickets it reads the clock (\<^verbatim>\<open>Date.now()\<close>, the argument \<open>now\<close>) and the local
  calendar of the host. The limits of an engine, such as the number of arguments that
  \<^verbatim>\<open>Math.min(...)\<close> can be called with, are not modelled.
\<close>

definition analytics ::
  "(int \<Rightarrow> int) \<Rightarrow> (int \<Rightarrow> nat) \<Rightarrow> int \<Rightarrow> Ticket list \<Rightarrow> Analytics" where
  "analytics getFullYear getMonth now tickets =
     (let labelData = sortDescending (Object_entries (labelCounts tickets));
          timeline = sortByMonth (Object_entries (timelineData getFullYear getMonth tickets));
          topReporters = take 10 (sortDescending (Object_entries (reporterCounts tickets)));
          totalTickets = length tickets;
          uniqueReporters = length (Object_keys (reporterCounts tickets));
          mostCommonLabel =
            (case labelData of [] \<Rightarrow> ''None''
             | (name, v) # rest \<Rightarrow> if name = [] then ''None'' else name);
          avgTicketsPerDay =
            jsDivide (of_nat totalTickets)
              (Math_max_1 (daysSince now (Math_min (map creationTime tickets))))
      in \<lparr>labelData = labelData, timeline = timeline, topReporters = topReporters,
          stats = \<lparr>totalTickets = totalTickets, uniqueReporters = uniqueReporters,
                   mostCommonLabel = mostCommonLabel,
                   avgTicketsPerDay = roundToTenth avgTicketsPerDay\<rparr>\<rparr>)"

subsection \<open>Notions used to state the properties of the filter\<close>

definition qualifiers :: "string list" where
  "qualifiers = [''before'', ''after'', ''reporter'']"

text \<open>\<open>s\<close> starts with a qualifier word, a colon and at least one character of a token.\<close>

definition startsWithQualifierToken :: "string \<Rightarrow> bool" where
  "startsWithQualifierToken s =
     list_ex (\<lambda>q. prefix (q @ '':'') s \<and>
                  (case drop (length q + 1) s of [] \<Rightarrow> False | c # cs \<Rightarrow> \<not> isWhiteSpace c))
       qualifiers"

text \<open>\<open>r\<close> is empty or begins with whitespace: a token cannot start, or go on, here.\<close>

definition noTokenAhead :: "string \<Rightarrow> bool" where
  "noTokenAhead r = (case r of [] \<Rightarrow> True | c # cs \<Rightarrow> isWhiteSpace c)"

text \<open>How many of the three qualifier fields are set.\<close>

definition qualifierFieldsSet :: "filters \<Rightarrow> nat" where
  "qualifierFieldsSet f =
     (if beforeDate f = None then 0 else 1) + (if afterDate f = None then 0 else 1)
       + (if reporterEmail f = None then 0 else 1)"

subsection \<open>Notions used to state the properties of the analytics\<close>

text \<open>The keys of a list in the order in which each is met first.\<close>

definition firstSeen :: "string list \<Rightarrow> string list" where
  "firstSeen keys = rev (remdups (rev keys))"

text \<open>Every label of every ticket, in the order in which the first pass meets them.\<close>

definition allLabels :: "Ticket list \<Rightarrow> string list" where
  "allLabels tickets =
     concat (map (\<lambda>ticket. case labels ticket of None \<Rightarrow> [] | Some ls \<Rightarrow> ls) tickets)"

text \<open>The keys of \<open>order\<close>, each with the number of its occurrences in \<open>keys\<close>.\<close>

definition tally :: "string list \<Rightarrow> string list \<Rightarrow> (string \<times> nat) list" where
  "tally keys order = map (\<lambda>k. (k, count_list keys k)) order"

definition ranking :: "string list \<Rightarrow> string list" where
  "ranking keys =
     sort_key (\<lambda>k. - int (count_list keys k)) (propertyOrder (firstSeen keys))"

text \<open>Tickets for examples: all that matters in them is the reporter, the time, the labels.\<close>

definition exampleTicket :: "string \<Rightarrow> int \<Rightarrow> string list option \<Rightarrow> Ticket" where
  "exampleTicket email time ls =
     \<lparr>ticket_id = ''id'', title = ''title'', content = ''content'', creationTime = time,
      userEmail = email, labels = ls\<rparr>"

definition reportsBy :: "string list \<Rightarrow> Ticket list" where
  "reportsBy emails = map (\<lambda>email. exampleTicket email 0 None) emails"

section \<open>Properties of the search filter\<close>

subsection \<open>Strings\<close>

lemma isWhiteSpace_lowerChar: "isWhiteSpace (lowerChar c) = isWhiteSpace c"
  by (auto simp: isWhiteSpace_def lowerChar_def Let_def)

lemma toLowerCase_trim: "toLowerCase (trim s) = trim (toLowerCase s)"
proof -
  have comp: "isWhiteSpace \<circ> lowerChar = isWhiteSpace"
    by (rule ext) (simp add: isWhiteSpace_lowerChar)
  show ?thesis
    by (simp add: toLowerCase_def trim_def rev_map dropWhile_map comp)
qed

lemma trim_idem: "trim (trim s) = trim s"
proof -
  let ?a = "dropWhile isWhiteSpace s"
  let ?b = "dropWhile isWhiteSpace (rev ?a)"
  have "dropWhile isWhiteSpace (rev ?b) = rev ?b"
  proof (cases "?b = []")
    case True
    then have "rev ?b = []" by (simp only: rev.simps)
    then show ?thesis by (simp only: dropWhile.simps)
  next
    case False
    obtain c where c: "rev ?a = c @ ?b"
      by (metis takeWhile_dropWhile_id)
    then have a: "?a = rev ?b @ rev c"
      by (metis rev_append rev_rev_ident)
    from False have "rev ?b \<noteq> []" by simp
    then have "hd (rev ?b) = hd ?a"
      using a by (metis hd_append2)
    moreover have "?a \<noteq> []"
      using a \<open>rev ?b \<noteq> []\<close> by (metis append_is_Nil_conv)
    then have "\<not> isWhiteSpace (hd ?a)"
      by (rule hd_dropWhile)
    ultimately show ?thesis
      using \<open>rev ?b \<noteq> []\<close> by (simp add: dropWhile_eq_self_iff)
  qed
  then show ?thesis
    by (simp add: trim_def)
qed

lemma stripPrefix_Some: "stripPrefix p s = Some r \<longleftrightarrow> s = p @ r"
  by (induction p s rule: stripPrefix.induct) auto

lemma lowerChar_colon:
  assumes "lowerChar c = CHR '':''"
  shows "c = CHR '':''"
proof -
  have "(of_char (lowerChar c) :: nat) = 58"
    using assms by simp
  then have "(of_char c :: nat) = 58"
    by (auto simp: lowerChar_def Let_def split: if_splits)
  then have "(of_char c :: nat) = of_char (CHR '':'')"
    by simp
  then show ?thesis
    by (simp only: of_char_eq_iff)
qed

lemma toLowerCase_no_colon:
  assumes "CHR '':'' \<notin> set (toLowerCase w)"
  shows "CHR '':'' \<notin> set w"
proof
  assume "CHR '':'' \<in> set w"
  then have "lowerChar (CHR '':'') \<in> set (toLowerCase w)"
    by (simp add: toLowerCase_def)
  moreover have "lowerChar (CHR '':'') = CHR '':''"
    by (simp add: lowerChar_def)
  ultimately show False using assms by simp
qed

lemma takeWhile_until:
  "x \<notin> set u \<Longrightarrow> takeWhile (\<lambda>c. c \<noteq> x) (u @ x # r) = u"
  by (induction u) auto

lemma before_colon_unique:
  assumes "CHR '':'' \<notin> set u" and "CHR '':'' \<notin> set v"
    and "u @ CHR '':'' # r = v @ CHR '':'' # r'"
  shows "u = v"
proof -
  have "takeWhile (\<lambda>c. c \<noteq> CHR '':'') (u @ CHR '':'' # r) = u"
    using assms(1) by (rule takeWhile_until)
  moreover have "takeWhile (\<lambda>c. c \<noteq> CHR '':'') (v @ CHR '':'' # r') = v"
    using assms(2) by (rule takeWhile_until)
  ultimately show ?thesis using assms(3) by simp
qed

subsection \<open>When the pattern matches\<close>

lemma qualifiers_lower:
  "q \<in> set qualifiers \<Longrightarrow> toLowerCase q = q \<and> CHR '':'' \<notin> set q"
  by (auto simp: qualifiers_def toLowerCase_def lowerChar_def)

lemma matchQualifier_Some:
  assumes "matchQualifier s = Some (q, r)"
  shows "q \<in> set qualifiers \<and> s = q @ '':'' @ r"
  using assms
  by (auto simp: matchQualifier_def qualifiers_def stripPrefix_Some split: option.splits)

lemma matchQualifier_qualifier:
  assumes "q \<in> set qualifiers"
  shows "matchQualifier (q @ CHR '':'' # r) = Some (q, r)"
  using assms
  by (auto simp: matchQualifier_def qualifiers_def stripPrefix_Some split: option.splits)

lemma filterRegex_None:
  assumes "\<not> startsWithQualifierToken s"
  shows "filterRegex s = None"
proof (rule ccontr)
  assume "filterRegex s \<noteq> None"
  then obtain q r where m: "matchQualifier s = Some (q, r)"
    and tok: "takeWhile (\<lambda>c. \<not> isWhiteSpace c) r \<noteq> []"
    by (auto simp: filterRegex_def Let_def split: option.splits if_splits)
  from m have q: "q \<in> set qualifiers" and s: "s = q @ '':'' @ r"
    using matchQualifier_Some by blast+
  from tok obtain c cs where r: "r = c # cs" and c: "\<not> isWhiteSpace c"
    by (cases r) (auto split: if_splits)
  have "prefix (q @ '':'') s" using s by simp
  moreover have "drop (length q + 1) s = c # cs" using s r by simp
  ultimately have "startsWithQualifierToken s"
    using q c by (auto simp: startsWithQualifierToken_def list_ex_iff)
  with assms show False by simp
qed

lemma filterRegex_no_token:
  assumes "q \<in> set qualifiers" and "noTokenAhead r"
  shows "filterRegex (q @ CHR '':'' # r) = None"
proof -
  have "takeWhile (\<lambda>c. \<not> isWhiteSpace c) r = []"
    using assms(2) by (cases r) (auto simp: noTokenAhead_def)
  then show ?thesis
    by (simp add: filterRegex_def matchQualifier_qualifier [OF assms(1)])
qed



lemma filterRegex_case_variant:
  assumes "q \<in> set qualifiers" and "toLowerCase w = q" and "w \<noteq> q"
  shows "filterRegex (w @ CHR '':'' # r) = None"
proof -
  have "matchQualifier (w @ CHR '':'' # r) = None"
  proof (rule ccontr)
    assume "matchQualifier (w @ CHR '':'' # r) \<noteq> None"
    then obtain q' r' where "matchQualifier (w @ CHR '':'' # r) = Some (q', r')"
      by auto
    then have q': "q' \<in> set qualifiers" and eq: "w @ CHR '':'' # r = q' @ CHR '':'' # r'"
      using matchQualifier_Some by fastforce+
    have "CHR '':'' \<notin> set w"
      using assms(1,2) qualifiers_lower toLowerCase_no_colon by blast
    moreover have "CHR '':'' \<notin> set q'"
      using q' qualifiers_lower by blast
    ultimately have "w = q'"
      using eq before_colon_unique [of w q' r r'] by simp
    then have "toLowerCase w = w"
      using q' qualifiers_lower by blast
    with assms(2,3) show False by simp
  qed
  then show ?thesis by (simp add: filterRegex_def)
qed

lemma index_filters_no_match:
  assumes "filterRegex s = None"
  shows "index_filters dateParse s =
    \<lparr>beforeDate = None, afterDate = None, reporterEmail = None,
     searchValue = Some (toLowerCase (trim s))\<rparr>"
  using assms by (simp add: index_filters_def)

subsection \<open>A qualifier with an empty token\<close>

text \<open>
  Claim C1, as the code has it. When a qualifier word and its colon are followed by nothing
  or by whitespace, group 2 of the pattern, which needs at least one character, cannot
  match. So the pattern does not match at all: the three qualifier fields stay unset, and
  \<open>searchValue\<close> is the whole input, trimmed and in lower case, with the qualifier word
  and the colon in it.
\<close>

theorem empty_token_is_plain_text:
  assumes "q \<in> set qualifiers" and "noTokenAhead r"
  shows "index_filters dateParse (q @ '':'' @ r) =
    \<lparr>beforeDate = None, afterDate = None, reporterEmail = None,
     searchValue = Some (toLowerCase (trim (q @ '':'' @ r)))\<rparr>"
  using filterRegex_no_token [OF assms] index_filters_no_match [of "q @ '':'' @ r" dateParse]
  by simp

theorem empty_token_is_plain_text_witness:
  "''before'' \<in> set qualifiers \<and> noTokenAhead '' foo'' \<and>
   index_filters (dateFnsParse 0) ''before: foo'' =
     \<lparr>beforeDate = None, afterDate = None, reporterEmail = None,
      searchValue = Some ''before: foo''\<rparr>"
proof -
  have q: "''before'' \<in> set qualifiers" by (simp add: qualifiers_def)
  have r: "noTokenAhead '' foo''" by (simp add: noTokenAhead_def isWhiteSpace_def)
  have v: "toLowerCase (trim ''before: foo'') = ''before: foo''" by code_simp
  show ?thesis
    using q r v empty_token_is_plain_text [OF q r, of "dateFnsParse 0"] by simp
qed

text \<open>
  The claim as it is written asks for \<open>searchValue\<close> to be what follows the colon, without
  the qualifier word. For \<^verbatim>\<open>before: foo\<close> that would be \<^verbatim>\<open>foo\<close>, and for \<^verbatim>\<open>before:\<close> the
  empty string; the code gives the whole input both times.
\<close>

theorem empty_token_counterexample:
  "searchValue (index_filters (dateFnsParse 0) ''before: foo'') = Some ''before: foo'' \<and>
   searchValue (index_filters (dateFnsParse 0) ''before: foo'') \<noteq> Some ''foo'' \<and>
   searchValue (index_filters (dateFnsParse 0) ''before:'') = Some ''before:''"
  by code_simp

subsection \<open>The end of the day of \<open>after:\<close>\<close>

lemma dateFnsParse_example: "dateFnsParse tz ''01/01/2024'' = Date (19723 * msPerDay + tz * 60000)"
  by code_simp

lemma after_regex: "filterRegex ''after:01/01/2024'' = Some (''after'', ''01/01/2024'', [])"
  by code_simp

text \<open>
  On a host at UTC or west of it (\<open>getTimezoneOffset\<close> from 0 to below 1440), local
  midnight of 1 January 2024 lies in the UTC day 1 January 2024, and \<open>afterDate\<close> is
  1 January 2024 23:59:59.999 UTC, which is 1704153599999.
\<close>

lemma after_date_utc_or_west:
  assumes "0 \<le> tz" and "tz < 1440"
  shows "index_filters (dateFnsParse tz) ''after:01/01/2024'' =
    \<lparr>beforeDate = None, afterDate = Some (Date 1704153599999), reporterEmail = None,
     searchValue = Some ''''\<rparr>"
proof -
  have "(19723 * msPerDay + tz * 60000) div msPerDay = 19723"
    using assms by (simp add: msPerDay_def)
  then have "setUTCHours 23 59 59 999 (dateFnsParse tz ''01/01/2024'') = Date 1704153599999"
    by (simp add: dateFnsParse_example msPerDay_def)
  then show ?thesis
    by (simp add: index_filters_def after_regex trim_def toLowerCase_def)
qed

text \<open>
  On a host east of UTC (\<open>getTimezoneOffset\<close> below 0, above \<open>-1440\<close>), local midnight
  of 1 January 2024 lies in the UTC day 31 December 2023, and that is the day whose last
  millisecond \<open>afterDate\<close> becomes.
\<close>

lemma after_date_east:
  assumes "- 1440 < tz" and "tz < 0"
  shows "index_filters (dateFnsParse tz) ''after:01/01/2024'' =
    \<lparr>beforeDate = None, afterDate = Some (Date 1704067199999), reporterEmail = None,
     searchValue = Some ''''\<rparr>"
proof -
  have "(19723 * msPerDay + tz * 60000) div msPerDay = 19722"
    using assms by (simp add: msPerDay_def)
  then have "setUTCHours 23 59 59 999 (dateFnsParse tz ''01/01/2024'') = Date 1704067199999"
    by (simp add: dateFnsParse_example msPerDay_def)
  then show ?thesis
    by (simp add: index_filters_def after_regex trim_def toLowerCase_def)
qed

text \<open>
  Claim C2 at a host east of UTC. At UTC+01:00 (\<open>getTimezoneOffset\<close> is \<open>-60\<close>), local
  midnight of 1 January 2024 is 31 December 2023 23:00 UTC. \<open>setUTCHours\<close> keeps that UTC
  day, so \<open>afterDate\<close> is 31 December 2023 23:59:59.999 UTC (1704067199999), a whole day
  before the instant the claim names.
\<close>

theorem after_date_east_of_utc:
  "index_filters (dateFnsParse (- 60)) ''after:01/01/2024'' =
    \<lparr>beforeDate = None, afterDate = Some (Date 1704067199999), reporterEmail = None,
     searchValue = Some ''''\<rparr>"
  by code_simp

subsection \<open>One qualifier at most\<close>

text \<open>
  Claim C4. Whatever the input and whatever the date parser returns, at most one of
  \<open>beforeDate\<close>, \<open>afterDate\<close> and \<open>reporterEmail\<close> is set; and \<open>searchValue\<close> can be set
  next to it, as for \<^verbatim>\<open>reporter:a@b.com bug\<close>.
\<close>

theorem at_most_one_qualifier:
  "qualifierFieldsSet (index_filters dateParse s) \<le> 1 \<and>
   index_filters dateParse ''reporter:a@b.com bug'' =
     \<lparr>beforeDate = None, afterDate = None, reporterEmail = Some ''a@b.com'',
      searchValue = Some ''bug''\<rparr>"
proof
  show "qualifierFieldsSet (index_filters dateParse s) \<le> 1"
    by (auto simp: index_filters_def qualifierFieldsSet_def Let_def split: option.splits)
  show "index_filters dateParse ''reporter:a@b.com bug'' =
     \<lparr>beforeDate = None, afterDate = None, reporterEmail = Some ''a@b.com'',
      searchValue = Some ''bug''\<rparr>"
    by code_simp
qed

subsection \<open>Plain text\<close>

text \<open>
  Claim C5. An input that does not start with \<open>before\<close>, \<open>after\<close> or \<open>reporter\<close>, a colon
  and a first character of a token is plain text: \<open>searchValue\<close> is the input in lower case
  and trimmed, and the three qualifier fields are unset.
\<close>

theorem plain_text_fallback:
  assumes "\<not> startsWithQualifierToken s"
  shows "index_filters dateParse s =
    \<lparr>beforeDate = None, afterDate = None, reporterEmail = None,
     searchValue = Some (trim (toLowerCase s))\<rparr>"
  using filterRegex_None [OF assms] index_filters_no_match [of s dateParse]
  by (simp add: toLowerCase_trim)

theorem plain_text_fallback_witness:
  "\<not> startsWithQualifierToken ''Login Page  '' \<and>
   index_filters (dateFnsParse 0) ''Login Page  '' =
    \<lparr>beforeDate = None, afterDate = None, reporterEmail = None,
     searchValue = Some ''login page''\<rparr>"
proof -
  have h: "\<not> startsWithQualifierToken ''Login Page  ''" by code_simp
  have v: "trim (toLowerCase ''Login Page  '') = ''login page''" by code_simp
  show ?thesis
    using h v plain_text_fallback [OF h, of "dateFnsParse 0"] by simp
qed

text \<open>
  The same from the request parameter on, through the \<^verbatim>\<open>trim\<close> of line 9: trimming
  twice is trimming once.
\<close>

lemma request_plain_text:
  assumes "\<not> startsWithQualifierToken (searchParam input)"
  shows "index_filters dateParse (searchParam input) =
    \<lparr>beforeDate = None, afterDate = None, reporterEmail = None,
     searchValue = Some (trim (toLowerCase input))\<rparr>"
  using filterRegex_None [OF assms] index_filters_no_match [of "searchParam input" dateParse]
  by (simp add: searchParam_def trim_idem toLowerCase_trim)

subsection \<open>A token that is not a date\<close>

text \<open>
  The pattern is matched on one line. When the rest of the input holds a line terminator,
  \<^verbatim>\<open>(.*)$\<close> cannot reach the end of the input, the pattern does not match, and the whole
  input is plain text, whatever the token is.
\<close>

lemma rest_with_line_break:
  "index_filters dateParse (''before:x a'' @ [CHR 0x0A] @ ''b'') =
    \<lparr>beforeDate = None, afterDate = None, reporterEmail = None,
     searchValue = Some (''before:x a'' @ [CHR 0x0A] @ ''b'')\<rparr>"
  by code_simp




subsection \<open>Upper case in the qualifier word\<close>

text \<open>
  Claim C10. A word \<open>w\<close> that is a qualifier word except for the case of some of its
  letters is not recognised: the input \<open>w:...\<close> is plain text, \<open>searchValue\<close> is the whole
  input trimmed and in lower case, and the qualifier fields are unset. The two inputs of
  the claim, \<^verbatim>\<open>Before:01/01/2024\<close> and \<^verbatim>\<open>REPORTER:a@b.com\<close>, are instances.
\<close>

theorem qualifier_case_sensitive:
  assumes "q \<in> set qualifiers" and "toLowerCase w = q" and "w \<noteq> q"
  shows "index_filters dateParse (w @ '':'' @ r) =
      \<lparr>beforeDate = None, afterDate = None, reporterEmail = None,
       searchValue = Some (trim (toLowerCase (w @ '':'' @ r)))\<rparr>
    \<and> index_filters dateParse ''Before:01/01/2024'' =
      \<lparr>beforeDate = None, afterDate = None, reporterEmail = None,
       searchValue = Some ''before:01/01/2024''\<rparr>
    \<and> index_filters dateParse ''REPORTER:a@b.com'' =
      \<lparr>beforeDate = None, afterDate = None, reporterEmail = None,
       searchValue = Some ''reporter:a@b.com''\<rparr>"
proof (intro conjI)
  show "index_filters dateParse (w @ '':'' @ r) =
      \<lparr>beforeDate = None, afterDate = None, reporterEmail = None,
       searchValue = Some (trim (toLowerCase (w @ '':'' @ r)))\<rparr>"
    using filterRegex_case_variant [OF assms, of r]
      index_filters_no_match [of "w @ '':'' @ r" dateParse]
    by (simp add: toLowerCase_trim)
  show "index_filters dateParse ''Before:01/01/2024'' =
      \<lparr>beforeDate = None, afterDate = None, reporterEmail = None,
       searchValue = Some ''before:01/01/2024''\<rparr>"
    by code_simp
  show "index_filters dateParse ''REPORTER:a@b.com'' =
      \<lparr>beforeDate = None, afterDate = None, reporterEmail = None,
       searchValue = Some ''reporter:a@b.com''\<rparr>"
    by code_simp
qed

theorem qualifier_case_sensitive_witness:
  "''after'' \<in> set qualifiers \<and> toLowerCase ''AfTer'' = ''after'' \<and> ''AfTer'' \<noteq> ''after'' \<and>
   index_filters (dateFnsParse 0) ''AfTer:01/01/2024 Crash'' =
      \<lparr>beforeDate = None, afterDate = None, reporterEmail = None,
       searchValue = Some ''after:01/01/2024 crash''\<rparr>"
proof -
  have h1: "''after'' \<in> set qualifiers" by (simp add: qualifiers_def)
  have h2: "toLowerCase ''AfTer'' = ''after''" by code_simp
  have h3: "''AfTer'' \<noteq> ''after''" by simp
  have v: "trim (toLowerCase ''AfTer:01/01/2024 Crash'') = ''after:01/01/2024 crash''" by code_simp
  show ?thesis
    using h1 h2 h3 v qualifier_case_sensitive [OF h1 h2 h3, of "dateFnsParse 0" "''01/01/2024 Crash''"]
    by simp
qed

subsection \<open>A date and a reporter\<close>

text \<open>
  \<^verbatim>\<open>before:31/12/2023 urgent\<close> on a host at UTC: \<open>beforeDate\<close> is midnight of
  31 December 2023, and \<open>searchValue\<close> is \<^verbatim>\<open>urgent\<close>. The email of a reporter is stored
  in lower case.
\<close>

lemma before_example:
  "index_filters (dateFnsParse 0) ''before:31/12/2023 urgent'' =
    \<lparr>beforeDate = Some (Date 1703980800000), afterDate = None, reporterEmail = None,
     searchValue = Some ''urgent''\<rparr>"
  by code_simp

lemma reporter_example:
  "index_filters dateParse ''reporter:Alice@Example.com bug'' =
    \<lparr>beforeDate = None, afterDate = None, reporterEmail = Some ''alice@example.com'',
     searchValue = Some ''bug''\<rparr>"
  by code_simp

section \<open>Properties of the analytics\<close>

subsection \<open>Counting with an object\<close>

lemma firstSeen_snoc:
  "firstSeen (ks @ [k]) = (if k \<in> set ks then firstSeen ks else firstSeen ks @ [k])"
  by (simp add: firstSeen_def)

lemma set_firstSeen: "set (firstSeen ks) = set ks"
  by (simp add: firstSeen_def)

lemma distinct_firstSeen: "distinct (firstSeen ks)"
  by (simp add: firstSeen_def)

lemma getOrZero_tally:
  "getOrZero (map (\<lambda>k. (k, c k)) order) key = (if key \<in> set order then c key else 0)"
  by (induction order) (auto simp: getOrZero_def)

lemma setProperty_tally_old:
  "key \<in> set order \<Longrightarrow>
   setProperty (map (\<lambda>k. (k, c k)) order) key v = map (\<lambda>k. (k, if k = key then v else c k)) order"
  by (auto simp: setProperty_def image_iff)

lemma setProperty_tally_new:
  "key \<notin> set order \<Longrightarrow>
   setProperty (map (\<lambda>k. (k, c k)) order) key v = map (\<lambda>k. (k, c k)) order @ [(key, v)]"
  by (auto simp: setProperty_def image_iff)

lemma foldl_increment: "foldl increment [] keys = tally keys (firstSeen keys)"
proof (induction keys rule: rev_induct)
  case Nil
  show ?case by (simp add: tally_def firstSeen_def)
next
  case (snoc k ks)
  show ?case
  proof (cases "k \<in> set ks")
    case True
    then show ?thesis
      using snoc
      by (simp add: tally_def firstSeen_snoc increment_def getOrZero_tally
          setProperty_tally_old set_firstSeen)
  next
    case False
    then show ?thesis
      using snoc
      by (auto simp: tally_def firstSeen_snoc increment_def getOrZero_tally
          setProperty_tally_new set_firstSeen count_list_0_iff)
  qed
qed

lemma foldl_labels:
  "foldl (\<lambda>obj ticket. case labels ticket of None \<Rightarrow> obj | Some ls \<Rightarrow> foldl increment obj ls)
      obj tickets = foldl increment obj (allLabels tickets)"
  by (induction tickets arbitrary: obj) (auto simp: allLabels_def split: option.splits)

lemma labelCounts_tally:
  "labelCounts tickets = tally (allLabels tickets) (firstSeen (allLabels tickets))"
  by (simp add: labelCounts_def foldl_labels foldl_increment)

lemma reporterCounts_tally:
  "reporterCounts tickets =
     tally (map userEmail tickets) (firstSeen (map userEmail tickets))"
  by (simp add: reporterCounts_def foldl_increment [symmetric] foldl_map)

lemma insort_key_map:
  "insort_key f (g x) (map g xs) = map g (insort_key (\<lambda>y. f (g y)) x xs)"
  by (induction xs) auto

lemma sort_key_map: "sort_key f (map g xs) = map g (sort_key (\<lambda>y. f (g y)) xs)"
  by (induction xs) (auto simp: insort_key_map)

lemma Object_entries_tally: "Object_entries (tally keys order) = tally keys (propertyOrder order)"
  by (simp add: Object_entries_def tally_def propertyOrder_def filter_map sort_key_map comp_def)

lemma sortDescending_tally:
  "sortDescending (tally keys order) = tally keys (sort_key (\<lambda>k. - int (count_list keys k)) order)"
  by (simp add: sortDescending_def tally_def sort_key_map comp_def)

lemma labelData_ranking:
  "labelData (analytics gy gm now tickets) = tally (allLabels tickets) (ranking (allLabels tickets))"
  by (simp add: analytics_def Let_def labelCounts_tally Object_entries_tally sortDescending_tally ranking_def)

lemma topReporters_ranking:
  "topReporters (analytics gy gm now tickets) =
     take 10 (tally (map userEmail tickets) (ranking (map userEmail tickets)))"
  by (simp add: analytics_def Let_def reporterCounts_tally Object_entries_tally sortDescending_tally ranking_def)

lemma length_propertyOrder: "length (propertyOrder ks) = length ks"
  by (simp add: propertyOrder_def sum_length_filter_compl)

lemma uniqueReporters_card:
  "uniqueReporters (stats (analytics gy gm now tickets)) = card (set (map userEmail tickets))"
proof -
  have "Object_keys (reporterCounts tickets) = propertyOrder (firstSeen (map userEmail tickets))"
    unfolding Object_keys_def reporterCounts_tally Object_entries_tally
    by (simp add: tally_def comp_def)
  then have "uniqueReporters (stats (analytics gy gm now tickets))
      = length (firstSeen (map userEmail tickets))"
    by (simp add: analytics_def Let_def length_propertyOrder)
  also have "\<dots> = card (set (firstSeen (map userEmail tickets)))"
    by (simp add: distinct_card distinct_firstSeen)
  finally show ?thesis by (simp add: set_firstSeen)
qed

lemma set_propertyOrder: "set (propertyOrder ks) = set ks"
  by (auto simp: propertyOrder_def)

lemma distinct_propertyOrder: "distinct ks \<Longrightarrow> distinct (propertyOrder ks)"
  by (auto simp: propertyOrder_def)

lemma set_ranking: "set (ranking ks) = set ks"
  by (simp add: ranking_def set_propertyOrder set_firstSeen)

lemma distinct_ranking: "distinct (ranking ks)"
  by (simp add: ranking_def distinct_propertyOrder distinct_firstSeen)

lemma length_ranking: "length (ranking ks) = card (set ks)"
  by (metis distinct_card distinct_ranking set_ranking)

lemma ranking_descending:
  "sorted_wrt (\<lambda>a b. count_list ks b \<le> count_list ks a) (ranking ks)"
proof -
  have "sorted (map (\<lambda>k. - int (count_list ks k)) (ranking ks))"
    unfolding ranking_def by (rule sorted_sort_key)
  then show ?thesis
    by (simp add: sorted_map sorted_wrt_iff_nth_less)
qed

lemma ranking_ties:
  "filter (\<lambda>k. count_list ks k = n) (ranking ks)
     = filter (\<lambda>k. count_list ks k = n) (propertyOrder (firstSeen ks))"
proof -
  have "filter (\<lambda>k. - int (count_list ks k) = - int n) (ranking ks)
     = filter (\<lambda>k. - int (count_list ks k) = - int n) (propertyOrder (firstSeen ks))"
    unfolding ranking_def by (rule sort_key_stable)
  then show ?thesis by simp
qed

lemma tally_fst: "map fst (tally keys order) = order"
  by (simp add: tally_def comp_def)

lemma tally_snd: "map snd (tally keys order) = map (count_list keys) order"
  by (simp add: tally_def comp_def)

lemma tally_descending:
  "sorted_wrt (\<lambda>a b. snd b \<le> snd a) (tally keys (ranking keys))"
  using ranking_descending [of keys] by (simp add: tally_def sorted_wrt_map)

lemma filter_not_index_propertyOrder:
  "filter (\<lambda>k. \<not> isArrayIndex k) (propertyOrder ks) = filter (\<lambda>k. \<not> isArrayIndex k) ks"
  by (simp add: propertyOrder_def filter_sort)

lemma ranking_ties_not_index:
  "filter (\<lambda>k. \<not> isArrayIndex k \<and> count_list ks k = n) (ranking ks)
     = filter (\<lambda>k. \<not> isArrayIndex k \<and> count_list ks k = n) (firstSeen ks)"
proof -
  have "filter (\<lambda>k. \<not> isArrayIndex k \<and> count_list ks k = n) (ranking ks)
      = filter (\<lambda>k. \<not> isArrayIndex k) (filter (\<lambda>k. count_list ks k = n) (ranking ks))"
    by (simp add: conj_commute)
  also have "\<dots> = filter (\<lambda>k. \<not> isArrayIndex k)
      (filter (\<lambda>k. count_list ks k = n) (propertyOrder (firstSeen ks)))"
    by (simp only: ranking_ties)
  also have "\<dots> = filter (\<lambda>k. count_list ks k = n)
      (filter (\<lambda>k. \<not> isArrayIndex k) (propertyOrder (firstSeen ks)))"
    by (simp add: conj_commute)
  also have "\<dots> = filter (\<lambda>k. count_list ks k = n) (filter (\<lambda>k. \<not> isArrayIndex k) (firstSeen ks))"
    by (simp only: filter_not_index_propertyOrder)
  also have "\<dots> = filter (\<lambda>k. \<not> isArrayIndex k \<and> count_list ks k = n) (firstSeen ks)"
    by simp
  finally show ?thesis .
qed

lemma take_ranking:
  "map fst (take m (tally ks (ranking ks))) = take m (ranking ks)"
  by (simp add: take_map [symmetric] tally_fst)

lemma Math_round_of_int: "Math_round (of_int n) = n"
  unfolding Math_round_def by (rule floor_unique) simp_all

lemma Math_round_numeral: "Math_round 0 = 0" "Math_round 10 = 10" "Math_round 5 = 5"
  using Math_round_of_int [of 0] Math_round_of_int [of 10] Math_round_of_int [of 5] by simp_all

text \<open>The divisor of the average is at least 1, whatever the tickets and the clock.\<close>

lemma Math_max_1_ge: "1 \<le> Math_max_1 x"
  by (simp add: Math_max_1_def split: option.splits)

lemma average_is_finite:
  "avgTicketsPerDay (stats (analytics getFullYear getMonth now tickets)) =
     Num (of_int (Math_round
       (of_nat (length tickets)
          / Math_max_1 (daysSince now (Math_min (map creationTime tickets))) * 10)) / 10)"
proof -
  have "Math_max_1 (daysSince now (Math_min (map creationTime tickets))) \<noteq> 0"
    using Math_max_1_ge [of "daysSince now (Math_min (map creationTime tickets))"] by auto
  then show ?thesis
    by (simp add: analytics_def Let_def jsDivide_def)
qed

subsection \<open>No tickets\<close>

text \<open>
  Claim C7. For the empty list of tickets the analytics are: no label, no month, no
  reporter, 0 tickets, 0 reporters, the most common label \<^verbatim>\<open>None\<close>, and the number 0 as
  tickets per day. That number is the quotient of 0 by the divisor
  \<open>Math.max(1, -\<infinity>)\<close>, which is 1, and not 0: a quotient by 0 would be \<open>NaN\<close>.
\<close>

theorem empty_analytics:
  "analytics getFullYear getMonth now [] =
     \<lparr>labelData = [], timeline = [], topReporters = [],
      stats = \<lparr>totalTickets = 0, uniqueReporters = 0, mostCommonLabel = ''None'',
               avgTicketsPerDay = Num 0\<rparr>\<rparr>
   \<and> Math_max_1 (daysSince now (Math_min (map creationTime []))) = 1
   \<and> avgTicketsPerDay (stats (analytics getFullYear getMonth now [])) \<noteq> NaN"
  by (simp add: analytics_def labelCounts_def timelineData_def reporterCounts_def
      Object_entries_def Object_keys_def sortDescending_def sortByMonth_def Math_min_def
      daysSince_def Math_max_1_def Math_round_numeral jsDivide_def)

subsection \<open>The clock\<close>

text \<open>
  Claim C3, as the code has it. The analytics read the clock, and nothing but the average
  per day depends on what it shows: with the same tickets on the same host, the analytics
  at two instants \<open>now\<close> and \<open>now'\<close> are equal in every field but \<open>avgTicketsPerDay\<close>.
  The average is made from the tickets and the clock alone, so two calls that read the
  same instant give the same average as well.
\<close>

theorem analytics_clock_only_in_average:
  "analytics getFullYear getMonth now tickets =
     (analytics getFullYear getMonth now' tickets)
       \<lparr>stats := (stats (analytics getFullYear getMonth now' tickets))
          \<lparr>avgTicketsPerDay :=
             avgTicketsPerDay (stats (analytics getFullYear getMonth now tickets))\<rparr>\<rparr>
   \<and> avgTicketsPerDay (stats (analytics getFullYear getMonth now tickets))
       = avgTicketsPerDay (stats (analytics getFullYear' getMonth' now tickets))"
  by (simp add: analytics_def Let_def)

text \<open>
  The claim as it is written also asks for the same \<open>avgTicketsPerDay\<close> from any two calls
  with the same tickets. One ticket created at time 0 gives 1 per day when the clock
  shows the end of the first day, and 0.5 per day a day later. Both numbers, and all that
  leads to them, are exact as doubles.
\<close>

theorem analytics_clock_counterexample:
  "analytics (\<lambda>t. 1970) (\<lambda>t. 0) 86400000 [exampleTicket ''a@b.com'' 0 None]
     \<noteq> analytics (\<lambda>t. 1970) (\<lambda>t. 0) 172800000 [exampleTicket ''a@b.com'' 0 None]
   \<and> avgTicketsPerDay (stats (analytics (\<lambda>t. 1970) (\<lambda>t. 0) 86400000
        [exampleTicket ''a@b.com'' 0 None])) = Num 1
   \<and> avgTicketsPerDay (stats (analytics (\<lambda>t. 1970) (\<lambda>t. 0) 172800000
        [exampleTicket ''a@b.com'' 0 None])) = Num (1 / 2)"
proof -
  have a: "avgTicketsPerDay (stats (analytics (\<lambda>t. 1970) (\<lambda>t. 0) 86400000
        [exampleTicket ''a@b.com'' 0 None])) = Num 1"
    by (simp add: analytics_def Let_def exampleTicket_def Math_min_def daysSince_def
        Math_max_1_def Math_round_numeral jsDivide_def)
  have b: "avgTicketsPerDay (stats (analytics (\<lambda>t. 1970) (\<lambda>t. 0) 172800000
        [exampleTicket ''a@b.com'' 0 None])) = Num (1 / 2)"
    by (simp add: analytics_def Let_def exampleTicket_def Math_min_def daysSince_def
        Math_max_1_def Math_round_numeral jsDivide_def)
  have "x \<noteq> y"
    if "avgTicketsPerDay (stats x) = Num 1" and "avgTicketsPerDay (stats y) = Num (1 / 2)"
    for x y :: Analytics
    using that by auto
  from this [OF a b] a b show ?thesis by simp
qed

subsection \<open>The labels\<close>

lemma xss_tally:
  "tally [''xss'', ''xss'', ''xss'', ''xss'', ''sqli'']
     (ranking [''xss'', ''xss'', ''xss'', ''xss'', ''sqli'']) = [(''xss'', 4), (''sqli'', 1)]"
  "tally [''xss'', ''xss'', ''xss'', ''sqli'', ''xss'']
     (ranking [''xss'', ''xss'', ''xss'', ''sqli'', ''xss'']) = [(''xss'', 4), (''sqli'', 1)]"
  "tally [''xss'', ''xss'', ''sqli'', ''xss'', ''xss'']
     (ranking [''xss'', ''xss'', ''sqli'', ''xss'', ''xss'']) = [(''xss'', 4), (''sqli'', 1)]"
  "tally [''xss'', ''sqli'', ''xss'', ''xss'', ''xss'']
     (ranking [''xss'', ''sqli'', ''xss'', ''xss'', ''xss'']) = [(''xss'', 4), (''sqli'', 1)]"
  by code_simp+

lemma xss_example:
  "\<forall>ts \<in> set [[a\<lparr>labels := Some [''xss'']\<rparr>, b\<lparr>labels := Some [''xss'']\<rparr>,
                     c\<lparr>labels := Some [''xss'']\<rparr>, d\<lparr>labels := Some [''xss'', ''sqli'']\<rparr>],
                    [a\<lparr>labels := Some [''xss'']\<rparr>, b\<lparr>labels := Some [''xss'']\<rparr>,
                     d\<lparr>labels := Some [''xss'', ''sqli'']\<rparr>, c\<lparr>labels := Some [''xss'']\<rparr>],
                    [a\<lparr>labels := Some [''xss'']\<rparr>, d\<lparr>labels := Some [''xss'', ''sqli'']\<rparr>,
                     b\<lparr>labels := Some [''xss'']\<rparr>, c\<lparr>labels := Some [''xss'']\<rparr>],
                    [d\<lparr>labels := Some [''xss'', ''sqli'']\<rparr>, a\<lparr>labels := Some [''xss'']\<rparr>,
                     b\<lparr>labels := Some [''xss'']\<rparr>, c\<lparr>labels := Some [''xss'']\<rparr>]].
          labelData (analytics gy gm now ts) = [(''xss'', 4), (''sqli'', 1)]"
  by (simp add: labelData_ranking allLabels_def xss_tally)

text \<open>
  Claim C9, as the code has it, for labels that name no member of \<^verbatim>\<open>Object.prototype\<close>.
  Every label of the tickets is in \<open>labelData\<close> once, with the number of its occurrences
  over all tickets, and \<open>labelData\<close> is descending by count. Labels with the same count
  \<open>n\<close> keep the order of \<^verbatim>\<open>Object.entries\<close>: the labels that are array indices first,
  in ascending numeric order, then the others in the order in which they were met first.
  So among labels that are no array indices, ties keep the first-encountered order. Three
  tickets with the label \<^verbatim>\<open>xss\<close> and one with \<^verbatim>\<open>xss\<close> and \<^verbatim>\<open>sqli\<close>, in any order and
  whatever their other fields, give \<^verbatim>\<open>xss\<close> with 4 and then \<^verbatim>\<open>sqli\<close> with 1.
\<close>

theorem label_data_counts_and_order:
  assumes "list_all ordinaryKey (allLabels tickets)"
  shows "distinct (map fst (labelData (analytics gy gm now tickets)))
    \<and> set (map fst (labelData (analytics gy gm now tickets))) = set (allLabels tickets)
    \<and> map snd (labelData (analytics gy gm now tickets))
        = map (count_list (allLabels tickets)) (map fst (labelData (analytics gy gm now tickets)))
    \<and> sorted_wrt (\<lambda>a b. snd b \<le> snd a) (labelData (analytics gy gm now tickets))
    \<and> filter (\<lambda>k. count_list (allLabels tickets) k = n)
          (map fst (labelData (analytics gy gm now tickets)))
        = filter (\<lambda>k. count_list (allLabels tickets) k = n)
            (propertyOrder (firstSeen (allLabels tickets)))
    \<and> filter (\<lambda>k. \<not> isArrayIndex k \<and> count_list (allLabels tickets) k = n)
          (map fst (labelData (analytics gy gm now tickets)))
        = filter (\<lambda>k. \<not> isArrayIndex k \<and> count_list (allLabels tickets) k = n)
            (firstSeen (allLabels tickets))
    \<and> (\<forall>ts \<in> set [[a\<lparr>labels := Some [''xss'']\<rparr>, b\<lparr>labels := Some [''xss'']\<rparr>,
                     c\<lparr>labels := Some [''xss'']\<rparr>, d\<lparr>labels := Some [''xss'', ''sqli'']\<rparr>],
                    [a\<lparr>labels := Some [''xss'']\<rparr>, b\<lparr>labels := Some [''xss'']\<rparr>,
                     d\<lparr>labels := Some [''xss'', ''sqli'']\<rparr>, c\<lparr>labels := Some [''xss'']\<rparr>],
                    [a\<lparr>labels := Some [''xss'']\<rparr>, d\<lparr>labels := Some [''xss'', ''sqli'']\<rparr>,
                     b\<lparr>labels := Some [''xss'']\<rparr>, c\<lparr>labels := Some [''xss'']\<rparr>],
                    [d\<lparr>labels := Some [''xss'', ''sqli'']\<rparr>, a\<lparr>labels := Some [''xss'']\<rparr>,
                     b\<lparr>labels := Some [''xss'']\<rparr>, c\<lparr>labels := Some [''xss'']\<rparr>]].
          labelData (analytics gy gm now ts) = [(''xss'', 4), (''sqli'', 1)])"
proof (intro conjI)
  let ?L = "allLabels tickets"
  note eq = labelData_ranking [of gy gm now tickets]
  show "distinct (map fst (labelData (analytics gy gm now tickets)))"
    by (simp add: eq tally_fst distinct_ranking)
  show "set (map fst (labelData (analytics gy gm now tickets))) = set ?L"
    by (simp only: eq tally_fst set_ranking)
  show "map snd (labelData (analytics gy gm now tickets))
        = map (count_list ?L) (map fst (labelData (analytics gy gm now tickets)))"
    by (simp only: eq tally_fst tally_snd)
  show "sorted_wrt (\<lambda>a b. snd b \<le> snd a) (labelData (analytics gy gm now tickets))"
    by (simp only: eq tally_descending)
  show "filter (\<lambda>k. count_list ?L k = n) (map fst (labelData (analytics gy gm now tickets)))
        = filter (\<lambda>k. count_list ?L k = n) (propertyOrder (firstSeen ?L))"
    by (simp only: eq tally_fst ranking_ties)
  show "filter (\<lambda>k. \<not> isArrayIndex k \<and> count_list ?L k = n)
          (map fst (labelData (analytics gy gm now tickets)))
        = filter (\<lambda>k. \<not> isArrayIndex k \<and> count_list ?L k = n) (firstSeen ?L)"
    by (simp only: eq tally_fst ranking_ties_not_index)
  show "\<forall>ts \<in> set [[a\<lparr>labels := Some [''xss'']\<rparr>, b\<lparr>labels := Some [''xss'']\<rparr>,
                     c\<lparr>labels := Some [''xss'']\<rparr>, d\<lparr>labels := Some [''xss'', ''sqli'']\<rparr>],
                    [a\<lparr>labels := Some [''xss'']\<rparr>, b\<lparr>labels := Some [''xss'']\<rparr>,
                     d\<lparr>labels := Some [''xss'', ''sqli'']\<rparr>, c\<lparr>labels := Some [''xss'']\<rparr>],
                    [a\<lparr>labels := Some [''xss'']\<rparr>, d\<lparr>labels := Some [''xss'', ''sqli'']\<rparr>,
                     b\<lparr>labels := Some [''xss'']\<rparr>, c\<lparr>labels := Some [''xss'']\<rparr>],
                    [d\<lparr>labels := Some [''xss'', ''sqli'']\<rparr>, a\<lparr>labels := Some [''xss'']\<rparr>,
                     b\<lparr>labels := Some [''xss'']\<rparr>, c\<lparr>labels := Some [''xss'']\<rparr>]].
          labelData (analytics gy gm now ts) = [(''xss'', 4), (''sqli'', 1)]"
    by (rule xss_example)
qed

theorem label_data_counts_and_order_witness:
  "list_all ordinaryKey (allLabels [exampleTicket ''a@b.com'' 0 (Some [''xss'', ''404'']),
      exampleTicket ''c@d.com'' 5 None, exampleTicket ''a@b.com'' 7 (Some [''csrf'', ''xss''])])
   \<and> distinct (map fst (labelData (analytics (\<lambda>t. 2024) (\<lambda>t. 0) 9
        [exampleTicket ''a@b.com'' 0 (Some [''xss'', ''404'']),
         exampleTicket ''c@d.com'' 5 None,
         exampleTicket ''a@b.com'' 7 (Some [''csrf'', ''xss''])])))
   \<and> set (map fst (labelData (analytics (\<lambda>t. 2024) (\<lambda>t. 0) 9
        [exampleTicket ''a@b.com'' 0 (Some [''xss'', ''404'']),
         exampleTicket ''c@d.com'' 5 None,
         exampleTicket ''a@b.com'' 7 (Some [''csrf'', ''xss''])]))) = {''xss'', ''404'', ''csrf''}
   \<and> sorted_wrt (\<lambda>a b. snd b \<le> snd a) (labelData (analytics (\<lambda>t. 2024) (\<lambda>t. 0) 9
        [exampleTicket ''a@b.com'' 0 (Some [''xss'', ''404'']),
         exampleTicket ''c@d.com'' 5 None,
         exampleTicket ''a@b.com'' 7 (Some [''csrf'', ''xss''])]))"
proof -
  let ?ts = "[exampleTicket ''a@b.com'' 0 (Some [''xss'', ''404'']),
      exampleTicket ''c@d.com'' 5 None, exampleTicket ''a@b.com'' 7 (Some [''csrf'', ''xss''])]"
  have L: "allLabels ?ts = [''xss'', ''404'', ''csrf'', ''xss'']"
    by (simp add: allLabels_def exampleTicket_def)
  have h: "list_all ordinaryKey (allLabels ?ts)"
    unfolding L by code_simp
  have s: "set [''xss'', ''404'', ''csrf'', ''xss''] = {''xss'', ''404'', ''csrf''}"
    by auto
  show ?thesis
    using h label_data_counts_and_order [OF h, of "\<lambda>t. 2024" "\<lambda>t. 0" 9 1]
    unfolding L s by blast
qed

text \<open>
  The claim as it is written keeps every tie in first-encountered order. A ticket with the
  label \<^verbatim>\<open>xss\<close> followed by a ticket with the label \<^verbatim>\<open>404\<close> gives \<^verbatim>\<open>404\<close> before
  \<^verbatim>\<open>xss\<close>, both with the count 1.
\<close>

theorem label_data_tie_counterexample:
  "labelData (analytics (\<lambda>t. 2024) (\<lambda>t. 0) 0
      [exampleTicket ''a@b.com'' 0 (Some [''xss'']), exampleTicket ''a@b.com'' 0 (Some [''404''])])
     = [(''404'', 1), (''xss'', 1)]
   \<and> firstSeen (allLabels
      [exampleTicket ''a@b.com'' 0 (Some [''xss'']), exampleTicket ''a@b.com'' 0 (Some [''404''])])
     = [''xss'', ''404'']"
proof -
  have L: "allLabels
      [exampleTicket ''a@b.com'' 0 (Some [''xss'']), exampleTicket ''a@b.com'' 0 (Some [''404''])]
     = [''xss'', ''404'']"
    by (simp add: allLabels_def exampleTicket_def)
  have r: "tally [''xss'', ''404''] (ranking [''xss'', ''404'']) = [(''404'', 1), (''xss'', 1)]"
    by code_simp
  have f: "firstSeen [''xss'', ''404''] = [''xss'', ''404'']"
    by (simp add: firstSeen_def)
  show ?thesis
    by (simp only: labelData_ranking L r f)
qed

subsection \<open>The reporters\<close>

text \<open>
  Claim C8, as the code has it, for emails that name no member of \<^verbatim>\<open>Object.prototype\<close>.
  With 15 tickets from 12 distinct emails, \<open>topReporters\<close> has 10 entries and
  \<open>uniqueReporters\<close> is 12, counted before the list is cut. The entries are distinct emails
  with their numbers of tickets, descending by count, and no reporter left out has more
  tickets than one who is in. The reporters with the same count \<open>n\<close> that are in the list
  stand in the order of \<^verbatim>\<open>Object.entries\<close> (array indices first, ascending, then the
  others as first seen) and are the first of them in that order; so among emails that are
  no array indices, ties keep the first-seen order.
\<close>

theorem top_reporters_of_fifteen:
  assumes "length tickets = 15" and "card (set (map userEmail tickets)) = 12"
    and "list_all ordinaryKey (map userEmail tickets)"
  shows "length (topReporters (analytics gy gm now tickets)) = 10
    \<and> uniqueReporters (stats (analytics gy gm now tickets)) = 12
    \<and> sorted_wrt (\<lambda>a b. snd b \<le> snd a) (topReporters (analytics gy gm now tickets))
    \<and> distinct (map fst (topReporters (analytics gy gm now tickets)))
    \<and> map snd (topReporters (analytics gy gm now tickets))
        = map (count_list (map userEmail tickets))
            (map fst (topReporters (analytics gy gm now tickets)))
    \<and> (\<forall>e \<in> set (map userEmail tickets) - set (map fst (topReporters (analytics gy gm now tickets))).
         \<forall>e' \<in> set (map fst (topReporters (analytics gy gm now tickets))).
           count_list (map userEmail tickets) e \<le> count_list (map userEmail tickets) e')
    \<and> prefix (filter (\<lambda>k. count_list (map userEmail tickets) k = n)
                 (map fst (topReporters (analytics gy gm now tickets))))
          (filter (\<lambda>k. count_list (map userEmail tickets) k = n)
             (propertyOrder (firstSeen (map userEmail tickets))))
    \<and> prefix (filter (\<lambda>k. \<not> isArrayIndex k \<and> count_list (map userEmail tickets) k = n)
                 (map fst (topReporters (analytics gy gm now tickets))))
          (filter (\<lambda>k. \<not> isArrayIndex k \<and> count_list (map userEmail tickets) k = n)
             (firstSeen (map userEmail tickets)))"
proof (intro conjI)
  let ?E = "map userEmail tickets"
  let ?top = "topReporters (analytics gy gm now tickets)"
  note eq = topReporters_ranking [of gy gm now tickets]
  have names: "map fst ?top = take 10 (ranking ?E)"
    by (simp only: eq take_ranking)
  have len: "length (ranking ?E) = 12"
    using assms(2) by (simp only: length_ranking)
  show "length ?top = 10"
    using len by (simp add: eq tally_def)
  show "uniqueReporters (stats (analytics gy gm now tickets)) = 12"
    using assms(2) by (simp only: uniqueReporters_card)
  show "sorted_wrt (\<lambda>a b. snd b \<le> snd a) ?top"
    unfolding eq by (rule sorted_wrt_take) (rule tally_descending)
  show "distinct (map fst ?top)"
    by (simp add: names distinct_ranking)
  show "map snd ?top = map (count_list ?E) (map fst ?top)"
    by (simp add: eq tally_def take_map comp_def)
  show "\<forall>e \<in> set ?E - set (map fst ?top). \<forall>e' \<in> set (map fst ?top).
           count_list ?E e \<le> count_list ?E e'"
  proof (intro ballI)
    fix e e'
    assume e: "e \<in> set ?E - set (map fst ?top)" and e': "e' \<in> set (map fst ?top)"
    have split: "ranking ?E = take 10 (ranking ?E) @ drop 10 (ranking ?E)"
      by simp
    from e have "e \<in> set (ranking ?E)" and "e \<notin> set (take 10 (ranking ?E))"
      by (simp_all add: set_ranking names)
    then have "e \<in> set (drop 10 (ranking ?E))"
      using split by (metis Un_iff set_append)
    moreover from e' have "e' \<in> set (take 10 (ranking ?E))"
      by (simp add: names)
    moreover have "sorted_wrt (\<lambda>a b. count_list ?E b \<le> count_list ?E a)
        (take 10 (ranking ?E) @ drop 10 (ranking ?E))"
      using ranking_descending [of ?E] by simp
    ultimately show "count_list ?E e \<le> count_list ?E e'"
      by (simp only: sorted_wrt_append)
  qed
  show "prefix (filter (\<lambda>k. count_list ?E k = n) (map fst ?top))
          (filter (\<lambda>k. count_list ?E k = n) (propertyOrder (firstSeen ?E)))"
  proof -
    have "prefix (filter (\<lambda>k. count_list ?E k = n) (take 10 (ranking ?E)))
        (filter (\<lambda>k. count_list ?E k = n) (ranking ?E))"
      by (intro filter_mono_prefix take_is_prefix)
    then show ?thesis by (simp only: names ranking_ties)
  qed
  show "prefix (filter (\<lambda>k. \<not> isArrayIndex k \<and> count_list ?E k = n) (map fst ?top))
          (filter (\<lambda>k. \<not> isArrayIndex k \<and> count_list ?E k = n) (firstSeen ?E))"
  proof -
    have "prefix (filter (\<lambda>k. \<not> isArrayIndex k \<and> count_list ?E k = n) (take 10 (ranking ?E)))
        (filter (\<lambda>k. \<not> isArrayIndex k \<and> count_list ?E k = n) (ranking ?E))"
      by (intro filter_mono_prefix take_is_prefix)
    then show ?thesis by (simp only: names ranking_ties_not_index)
  qed
qed

theorem top_reporters_of_fifteen_witness:
  "length (reportsBy [''a@x.io'', ''b@x.io'', ''a@x.io'', ''c@x.io'', ''d@x.io'', ''e@x.io'',
      ''a@x.io'', ''f@x.io'', ''g@x.io'', ''h@x.io'', ''b@x.io'', ''i@x.io'', ''j@x.io'',
      ''k@x.io'', ''l@x.io'']) = 15
   \<and> card (set (map userEmail (reportsBy [''a@x.io'', ''b@x.io'', ''a@x.io'', ''c@x.io'',
      ''d@x.io'', ''e@x.io'', ''a@x.io'', ''f@x.io'', ''g@x.io'', ''h@x.io'', ''b@x.io'',
      ''i@x.io'', ''j@x.io'', ''k@x.io'', ''l@x.io'']))) = 12
   \<and> list_all ordinaryKey (map userEmail (reportsBy [''a@x.io'', ''b@x.io'', ''a@x.io'',
      ''c@x.io'', ''d@x.io'', ''e@x.io'', ''a@x.io'', ''f@x.io'', ''g@x.io'', ''h@x.io'',
      ''b@x.io'', ''i@x.io'', ''j@x.io'', ''k@x.io'', ''l@x.io'']))
   \<and> length (topReporters (analytics (\<lambda>t. 2024) (\<lambda>t. 0) 9 (reportsBy [''a@x.io'',
      ''b@x.io'', ''a@x.io'', ''c@x.io'', ''d@x.io'', ''e@x.io'', ''a@x.io'', ''f@x.io'',
      ''g@x.io'', ''h@x.io'', ''b@x.io'', ''i@x.io'', ''j@x.io'', ''k@x.io'', ''l@x.io'']))) = 10
   \<and> uniqueReporters (stats (analytics (\<lambda>t. 2024) (\<lambda>t. 0) 9 (reportsBy [''a@x.io'',
      ''b@x.io'', ''a@x.io'', ''c@x.io'', ''d@x.io'', ''e@x.io'', ''a@x.io'', ''f@x.io'',
      ''g@x.io'', ''h@x.io'', ''b@x.io'', ''i@x.io'', ''j@x.io'', ''k@x.io'', ''l@x.io'']))) = 12"
proof -
  let ?es = "[''a@x.io'', ''b@x.io'', ''a@x.io'', ''c@x.io'', ''d@x.io'', ''e@x.io'',
      ''a@x.io'', ''f@x.io'', ''g@x.io'', ''h@x.io'', ''b@x.io'', ''i@x.io'', ''j@x.io'',
      ''k@x.io'', ''l@x.io'']"
  have E: "map userEmail (reportsBy ?es) = ?es"
    by (simp add: reportsBy_def exampleTicket_def)
  have h1: "length (reportsBy ?es) = 15"
    by (simp add: reportsBy_def)
  have h2: "card (set (map userEmail (reportsBy ?es))) = 12"
    unfolding E by code_simp
  have h3: "list_all ordinaryKey (map userEmail (reportsBy ?es))"
    unfolding E by code_simp
  show ?thesis
    using h1 h2 h3 top_reporters_of_fifteen [OF h1 h2 h3, of "\<lambda>t. 2024" "\<lambda>t. 0" 9 1]
    by blast
qed

text \<open>
  The claim as it is written keeps every tie in first-seen order, for every list of 15
  tickets from 12 reporters. Here the reporter \<^verbatim>\<open>9\<close> is seen before the reporter \<^verbatim>\<open>8\<close>,
  each with one ticket, and \<open>topReporters\<close> has \<^verbatim>\<open>8\<close> before \<^verbatim>\<open>9\<close>.
\<close>

theorem top_reporters_tie_counterexample:
  "length (reportsBy [''a@x.io'', ''a@x.io'', ''a@x.io'', ''a@x.io'', ''9'', ''8'', ''b@x.io'',
      ''c@x.io'', ''d@x.io'', ''e@x.io'', ''f@x.io'', ''g@x.io'', ''h@x.io'', ''i@x.io'',
      ''j@x.io'']) = 15
   \<and> card (set (map userEmail (reportsBy [''a@x.io'', ''a@x.io'', ''a@x.io'', ''a@x.io'',
      ''9'', ''8'', ''b@x.io'', ''c@x.io'', ''d@x.io'', ''e@x.io'', ''f@x.io'', ''g@x.io'',
      ''h@x.io'', ''i@x.io'', ''j@x.io'']))) = 12
   \<and> topReporters (analytics (\<lambda>t. 2024) (\<lambda>t. 0) 0 (reportsBy [''a@x.io'', ''a@x.io'',
      ''a@x.io'', ''a@x.io'', ''9'', ''8'', ''b@x.io'', ''c@x.io'', ''d@x.io'', ''e@x.io'',
      ''f@x.io'', ''g@x.io'', ''h@x.io'', ''i@x.io'', ''j@x.io'']))
     = [(''a@x.io'', 4), (''8'', 1), (''9'', 1), (''b@x.io'', 1), (''c@x.io'', 1),
        (''d@x.io'', 1), (''e@x.io'', 1), (''f@x.io'', 1), (''g@x.io'', 1), (''h@x.io'', 1)]
   \<and> firstSeen (map userEmail (reportsBy [''a@x.io'', ''a@x.io'', ''a@x.io'', ''a@x.io'',
      ''9'', ''8'', ''b@x.io'', ''c@x.io'', ''d@x.io'', ''e@x.io'', ''f@x.io'', ''g@x.io'',
      ''h@x.io'', ''i@x.io'', ''j@x.io'']))
     = [''a@x.io'', ''9'', ''8'', ''b@x.io'', ''c@x.io'', ''d@x.io'', ''e@x.io'', ''f@x.io'',
        ''g@x.io'', ''h@x.io'', ''i@x.io'', ''j@x.io'']"
proof -
  let ?es = "[''a@x.io'', ''a@x.io'', ''a@x.io'', ''a@x.io'', ''9'', ''8'', ''b@x.io'',
      ''c@x.io'', ''d@x.io'', ''e@x.io'', ''f@x.io'', ''g@x.io'', ''h@x.io'', ''i@x.io'',
      ''j@x.io'']"
  have E: "map userEmail (reportsBy ?es) = ?es"
    by (simp add: reportsBy_def exampleTicket_def)
  have h1: "length (reportsBy ?es) = 15"
    by (simp add: reportsBy_def)
  have h2: "card (set ?es) = 12"
    by code_simp
  have r: "take 10 (tally ?es (ranking ?es))
     = [(''a@x.io'', 4), (''8'', 1), (''9'', 1), (''b@x.io'', 1), (''c@x.io'', 1),
        (''d@x.io'', 1), (''e@x.io'', 1), (''f@x.io'', 1), (''g@x.io'', 1), (''h@x.io'', 1)]"
    by code_simp
  have f: "firstSeen ?es
     = [''a@x.io'', ''9'', ''8'', ''b@x.io'', ''c@x.io'', ''d@x.io'', ''e@x.io'', ''f@x.io'',
        ''g@x.io'', ''h@x.io'', ''i@x.io'', ''j@x.io'']"
    by code_simp
  show ?thesis
    by (simp only: topReporters_ranking E h1 h2 r f)
qed

end
